theory Spec2Isabelle
  imports Main "HOL-Library.Word"
begin

unbundle bit_operations_syntax

section \<open>Chunklist verification (src/utils/file_verification.py)\<close>

subsection \<open>Bytes, files and exceptions\<close>

type_synonym byte = "8 word"

text \<open>
  The exceptions the verifier raises or meets. All of them are subclasses of Python's
  \<open>Exception\<close>, so an \<open>except Exception\<close> clause catches every value of this type.
\<close>

datatype error =
    FileNotFoundError string
  | OSError
  | ValueError string
  | RuntimeError string

text \<open>
  A path names nothing (\<open>None\<close>), a regular readable file with its bytes, or something
  that exists but cannot be opened for reading (a directory, a file without read
  permission): \<open>os.path.exists\<close> is true for the last two, \<open>open\<close> succeeds only on
  the first.
\<close>

datatype fs_entry = Regular "byte list" | NotReadable

type_synonym filesystem = "string \<Rightarrow> fs_entry option"

definition path_exists :: "filesystem \<Rightarrow> string \<Rightarrow> bool" where
  "path_exists fs path = (fs path \<noteq> None)"

text \<open>
  A file object opened with mode \<open>"rb"\<close>: the bytes not yet read, or closed.
  \<open>f.read(n)\<close> returns at most \<open>n\<close> bytes and advances; on a closed file it raises
  \<open>ValueError\<close>. Leaving a \<open>with\<close> block closes the file.
\<close>

datatype handle = Open "byte list" | Closed

definition open_rb :: "filesystem \<Rightarrow> string \<Rightarrow> error + handle" where
  "open_rb fs path =
     (case fs path of
        None \<Rightarrow> Inl (FileNotFoundError path)
      | Some NotReadable \<Rightarrow> Inl OSError
      | Some (Regular bs) \<Rightarrow> Inr (Open bs))"

fun f_read :: "nat \<Rightarrow> handle \<Rightarrow> error + (byte list \<times> handle)" where
  "f_read n (Open bs) = Inr (take n bs, Open (drop n bs))"
| "f_read n Closed = Inl (ValueError ''read of closed file'')"

definition with_exit :: "handle \<Rightarrow> handle" where
  "with_exit f = Closed"

subsection \<open>Integers from bytes\<close>

fun from_bytes_little :: "byte list \<Rightarrow> nat" where
  "from_bytes_little [] = 0"
| "from_bytes_little (b # bs) = unat b + 256 * from_bytes_little bs"

definition from_bytes_big :: "byte list \<Rightarrow> nat" where
  "from_bytes_big bs = foldl (\<lambda>acc b. 256 * acc + unat b) 0 bs"

subsection \<open>The structures \<open>CHUNKLIST_HEADER = "<4sIBBBxQQQ"\<close> and \<open>CHUNK = "<I32s"\<close>\<close>

record chunklist_header =
  magic :: "byte list"
  header_size :: nat
  file_version :: nat
  chunk_method :: nat
  signature_method :: nat
  chunk_count :: nat
  chunk_offset :: nat
  signature_offset :: nat

definition CHUNKLIST_HEADER_size :: nat where
  "CHUNKLIST_HEADER_size = 36"

definition CHUNK_size :: nat where
  "CHUNK_size = 36"

definition field :: "nat \<Rightarrow> nat \<Rightarrow> byte list \<Rightarrow> byte list" where
  "field off len data = take len (drop off data)"

definition unpack_header :: "byte list \<Rightarrow> chunklist_header" where
  "unpack_header data =
     \<lparr> magic = field 0 4 data,
       header_size = from_bytes_little (field 4 4 data),
       file_version = from_bytes_little (field 8 1 data),
       chunk_method = from_bytes_little (field 9 1 data),
       signature_method = from_bytes_little (field 10 1 data),
       chunk_count = from_bytes_little (field 12 8 data),
       chunk_offset = from_bytes_little (field 20 8 data),
       signature_offset = from_bytes_little (field 28 8 data) \<rparr>"

definition unpack_chunk :: "byte list \<Rightarrow> nat \<times> byte list" where
  "unpack_chunk data = (from_bytes_little (field 0 4 data), field 4 32 data)"

definition CNKL :: "byte list" where
  "CNKL = [0x43, 0x4E, 0x4B, 0x4C]"

subsection \<open>The signature check\<close>

definition APPLE_EFI_ROM_PUBLIC_KEY_1 :: nat where
  "APPLE_EFI_ROM_PUBLIC_KEY_1 = 0xC3E748CAD9CD384329E10E25A91E43E1A762FF529ADE578C935BDDF9B13F2179D4855E6FC89E9E29CA12517D17DFA1EDCE0BEBF0EA7B461FFE61D94E2BDF72C196F89ACD3536B644064014DAE25A15DB6BB0852ECBD120916318D1CCDEA3C84C92ED743FC176D0BACA920D3FCF3158AFF731F88CE0623182A8ED67E650515F75745909F07D415F55FC15A35654D118C55A462D37A3ACDA08612F3F3F6571761EFCCBCC299AEE99B3A4FD6212CCFFF5EF37A2C334E871191F7E1C31960E010A54E86FA3F62E6D6905E1CD57732410A3EB0C6B4DEFDABE9F59BF1618758C751CD56CEF851D1C0EAA1C558E37AC108DA9089863D20E2E7E4BF475EC66FE6B3EFDCF"

text \<open>
  The integer \<open>int(f'0x1{"f"*404}003031300d060960864801650304020105000420{"0"*64}', 16)\<close>:
  the digit 1, then 404 digits f, then the 40 digits \<open>0030...0420\<close>, then 64 digits 0.
\<close>

definition padding_template :: nat where
  "padding_template =
     ((2 * 16 ^ 404 - 1) * 16 ^ 40 + 0x003031300d060960864801650304020105000420) * 16 ^ 64"

definition plaintext_of :: "byte list \<Rightarrow> nat" where
  "plaintext_of digest = padding_template OR from_bytes_big digest"

text \<open>Python's three-argument \<open>pow\<close> with a positive modulus.\<close>

definition pow_mod :: "nat \<Rightarrow> nat \<Rightarrow> nat \<Rightarrow> nat" where
  "pow_mod b e m = b ^ e mod m"

definition signature_of :: "byte list \<Rightarrow> nat" where
  "signature_of data = from_bytes_little data"

definition rsa_signature_ok :: "byte list \<Rightarrow> byte list \<Rightarrow> bool" where
  "rsa_signature_ok data digest =
     (pow_mod (signature_of data) 0x10001 APPLE_EFI_ROM_PUBLIC_KEY_1 = plaintext_of digest)"

subsection \<open>\<open>verify_chunklist\<close>, a generator\<close>

text \<open>
  What a generator does when it is run to its end: it yields values, then either raises
  or finishes. The generator reads only the manifest, so the sequence does not depend on
  when its consumer asks for the next value.
\<close>

datatype 'a generator = Yield 'a "'a generator" | Raise error | StopIteration

fun gen_result :: "'a generator \<Rightarrow> error option" where
  "gen_result (Yield x g) = gen_result g"
| "gen_result (Raise e) = Some e"
| "gen_result StopIteration = None"

fun gen_yields :: "'a generator \<Rightarrow> 'a list" where
  "gen_yields (Yield x g) = x # gen_yields g"
| "gen_yields (Raise e) = []"
| "gen_yields StopIteration = []"

text \<open>
  \<open>hashlib.sha256\<close> is a library function: the model takes the digest function as the
  parameter \<open>H\<close>. A hash context is the bytes fed to it so far.
\<close>

type_synonym hash_fn = "byte list \<Rightarrow> byte list"

definition check_header :: "chunklist_header \<Rightarrow> error option" where
  "check_header h =
     (if magic h \<noteq> CNKL then Some (ValueError ''Invalid chunklist: wrong magic number'')
      else if header_size h \<noteq> CHUNKLIST_HEADER_size
        then Some (ValueError ''Invalid chunklist: wrong header size'')
      else if file_version h \<noteq> 1
        then Some (ValueError ''Invalid chunklist: unsupported file version'')
      else if chunk_method h \<noteq> 1
        then Some (ValueError ''Invalid chunklist: unsupported chunk method'')
      else if signature_method h \<noteq> 1 \<and> signature_method h \<noteq> 2
        then Some (ValueError ''Invalid chunklist: unsupported signature method'')
      else if chunk_count h \<le> 0
        then Some (ValueError ''Invalid chunklist: invalid chunk count'')
      else if chunk_offset h \<noteq> 0x24
        then Some (ValueError ''Invalid chunklist: wrong chunk offset'')
      else if signature_offset h \<noteq> chunk_offset h + CHUNK_size * chunk_count h
        then Some (ValueError ''Invalid chunklist: wrong signature offset'')
      else None)"

definition ensure_completely_read :: "handle \<Rightarrow> (nat \<times> byte list) generator" where
  "ensure_completely_read f =
     (case f_read 1 f of
        Inl e \<Rightarrow> Raise e
      | Inr (data, f') \<Rightarrow>
          if data \<noteq> [] then Raise (ValueError ''Invalid chunklist: extra data after signature'')
          else StopIteration)"

definition verify_signature ::
  "hash_fn \<Rightarrow> nat \<Rightarrow> byte list \<Rightarrow> handle \<Rightarrow> (nat \<times> byte list) generator" where
  "verify_signature H sig_method hash_ctx f =
     (let digest = H hash_ctx in
      if sig_method = 1 then
        (case f_read 256 f of
           Inl e \<Rightarrow> Raise e
         | Inr (data, f') \<Rightarrow>
             if length data \<noteq> 256 then Raise (ValueError ''Invalid chunklist: signature truncated'')
             else if \<not> rsa_signature_ok data digest
               then Raise (ValueError ''Invalid chunklist: signature verification failed'')
             else ensure_completely_read f')
      else if sig_method = 2 then
        (case f_read 32 f of
           Inl e \<Rightarrow> Raise e
         | Inr (data, f') \<Rightarrow>
             if data \<noteq> digest then Raise (ValueError ''Invalid chunklist: hash verification failed'')
             else Raise (RuntimeError ''Chunklist missing digital signature''))
      else ensure_completely_read f)"

fun read_chunks ::
  "hash_fn \<Rightarrow> nat \<Rightarrow> nat \<Rightarrow> byte list \<Rightarrow> handle \<Rightarrow> (nat \<times> byte list) generator" where
  "read_chunks H sig_method 0 hash_ctx f = verify_signature H sig_method hash_ctx f"
| "read_chunks H sig_method (Suc n) hash_ctx f =
     (case f_read CHUNK_size f of
        Inl e \<Rightarrow> Raise e
      | Inr (data, f') \<Rightarrow>
          if length data \<noteq> CHUNK_size then Raise (ValueError ''Invalid chunklist: chunk data truncated'')
          else Yield (unpack_chunk data) (read_chunks H sig_method n (hash_ctx @ data) f'))"

definition verify_chunklist ::
  "hash_fn \<Rightarrow> filesystem \<Rightarrow> string \<Rightarrow> (nat \<times> byte list) generator" where
  "verify_chunklist H fs chunklist_path =
     (if \<not> path_exists fs chunklist_path
        then Raise (FileNotFoundError (''Chunklist file not found: '' @ chunklist_path))
      else
        (case open_rb fs chunklist_path of
           Inl e \<Rightarrow> Raise e
         | Inr f \<Rightarrow>
            (case f_read CHUNKLIST_HEADER_size f of
               Inl e \<Rightarrow> Raise e
             | Inr (data, f') \<Rightarrow>
                 if length data \<noteq> CHUNKLIST_HEADER_size
                   then Raise (ValueError ''Invalid chunklist: header too short'')
                 else
                   (let hash_ctx = [] @ data; h = unpack_header data in
                    case check_header h of
                      Some e \<Rightarrow> Raise e
                    | None \<Rightarrow> read_chunks H (signature_method h) (chunk_count h) hash_ctx f'))))"

subsection \<open>\<open>verify_file_against_chunklist\<close>\<close>

text \<open>
  How the \<open>for\<close> loop over the generator ends: by a \<open>return\<close> in its body, by an
  exception (of the generator or of the body), or by running out of chunks, with the
  target file's handle as it then is.
\<close>

datatype loop_exit = Returned bool | Raised error | Exhausted handle

fun for_chunks :: "hash_fn \<Rightarrow> (nat \<times> byte list) generator \<Rightarrow> handle \<Rightarrow> loop_exit" where
  "for_chunks H StopIteration f = Exhausted f"
| "for_chunks H (Raise e) f = Raised e"
| "for_chunks H (Yield (chunk_size, expected_hash) g) f =
     (case f_read chunk_size f of
        Inl e \<Rightarrow> Raised e
      | Inr (chunk_data, f') \<Rightarrow>
          if length chunk_data \<noteq> chunk_size then Returned False
          else if H chunk_data \<noteq> expected_hash then Returned False
          else for_chunks H g f')"

text \<open>
  The body of the \<open>try\<close>. The loop runs inside \<open>with open(file_path, "rb") as f\<close>; the
  final \<open>f.read(1)\<close> stands after the \<open>with\<close> block, at the indentation of the
  \<open>with\<close> itself, so it runs on the handle the block has closed.
\<close>

definition try_body :: "hash_fn \<Rightarrow> filesystem \<Rightarrow> string \<Rightarrow> string \<Rightarrow> error + bool" where
  "try_body H fs file_path chunklist_path =
     (case open_rb fs file_path of
        Inl e \<Rightarrow> Inl e
      | Inr f \<Rightarrow>
          (case for_chunks H (verify_chunklist H fs chunklist_path) f of
             Returned b \<Rightarrow> Inr b
           | Raised e \<Rightarrow> Inl e
           | Exhausted f' \<Rightarrow>
               (case f_read 1 (with_exit f') of
                  Inl e \<Rightarrow> Inl e
                | Inr (data, f'') \<Rightarrow> if data \<noteq> [] then Inr False else Inr True)))"

definition verify_file_against_chunklist ::
  "hash_fn \<Rightarrow> filesystem \<Rightarrow> string \<Rightarrow> string \<Rightarrow> error + bool" where
  "verify_file_against_chunklist H fs file_path chunklist_path =
     (if \<not> path_exists fs file_path
        then Inl (FileNotFoundError (''File not found: '' @ file_path))
      else
        (case try_body H fs file_path chunklist_path of
           Inl e \<Rightarrow> Inr False
         | Inr b \<Rightarrow> Inr b))"

subsection \<open>Vocabulary for the properties\<close>

text \<open>The errors the header validation can raise, in the order of its checks.\<close>

definition header_errors :: "error list" where
  "header_errors =
     [ValueError ''Invalid chunklist: wrong magic number'',
      ValueError ''Invalid chunklist: wrong header size'',
      ValueError ''Invalid chunklist: unsupported file version'',
      ValueError ''Invalid chunklist: unsupported chunk method'',
      ValueError ''Invalid chunklist: unsupported signature method'',
      ValueError ''Invalid chunklist: invalid chunk count'',
      ValueError ''Invalid chunklist: wrong chunk offset'',
      ValueError ''Invalid chunklist: wrong signature offset'']"

text \<open>
  The number of bytes the generator reads as the signature region: \<open>f.read(256)\<close> for
  method 1, \<open>f.read(32)\<close> for method 2.
\<close>

definition signature_length :: "nat \<Rightarrow> nat" where
  "signature_length sig_method = (if sig_method = 1 then 256 else 32)"

text \<open>
  Following the spec's words, for comparison with the code: the signature bytes read as
  a big-endian integer, and the PKCS#1 v1.5 encoding of a SHA-256 digest in 256 bytes
  (padding prefix \<open>00 01 FF .. FF 00\<close>, the DER prefix that carries the SHA-256 OID,
  then the digest bytes), read as a big-endian integer.
\<close>

definition spec_signature_of :: "byte list \<Rightarrow> nat" where
  "spec_signature_of data = from_bytes_big data"

text \<open>
  The 19 bytes \<open>3031300d060960864801650304020105000420\<close> of the source's hex string, in
  decimal and by their DER structure: a sequence of 49 bytes holding the algorithm
  identifier (the object identifier 2.16.840.1.101.3.4.2.1 of SHA-256 and a null
  parameter) and the header of an octet string of 32 bytes.
\<close>

definition sha256_oid :: "byte list" where
  "sha256_oid = [6, 9] @ [96, 134, 72, 1, 101, 3, 4, 2, 1]"

definition sha256_digest_info :: "byte list" where
  "sha256_digest_info = [48, 49] @ ([48, 13] @ sha256_oid @ [5, 0]) @ [4, 32]"

definition pkcs1_v15_encoding :: "byte list \<Rightarrow> byte list" where
  "pkcs1_v15_encoding digest =
     [0x00, 0x01] @ replicate 202 0xFF @ [0x00] @ sha256_digest_info @ digest"

section \<open>The downloader (src/downloader.py)\<close>

subsection \<open>Network, disk and the \<open>Downloader\<close> object\<close>

text \<open>
  The exceptions \<open>session.head\<close>, \<open>session.get\<close>, \<open>raise_for_status\<close> and the
  iteration over the body can raise, by the branch of \<open>stream_to_file\<close> that handles
  them: \<open>HTTPError\<close> carries the status code; \<open>ConnectionError\<close> and \<open>Timeout\<close> go
  to the network branch; every other exception goes to \<open>except Exception\<close>, whether
  it is a \<open>RequestException\<close> (as \<open>RetryError\<close>, \<open>ChunkedEncodingError\<close>) or not.
\<close>

datatype exn =
    HTTPError nat
  | ConnectionError
  | Timeout
  | OtherRequestException
  | OtherException

fun is_RequestException :: "exn \<Rightarrow> bool" where
  "is_RequestException OtherException = False"
| "is_RequestException e = True"

text \<open>The \<open>Content-Length\<close> header of a response: absent, an integer, or not a number.\<close>

datatype content_length = NoHeader | Length int | NotANumber

text \<open>
  A response whose status is not an error: its \<open>Content-Length\<close>, the chunks that
  \<open>iter_content\<close> delivers, and how the iteration ends (normally, or by an exception
  part-way through the body).
\<close>

record response =
  content_length :: content_length
  body :: "byte list list"
  body_end :: "exn option"

text \<open>A request: \<open>HEAD\<close>, or \<open>GET\<close> with the start of its \<open>Range: bytes=N-\<close> header, if any.\<close>

datatype request = HEAD | GET "int option"

text \<open>
  The network is a parameter: what one call of \<open>session.head\<close> or \<open>session.get\<close>
  brings, given the calls made before it; for \<open>GET\<close> the outcome includes
  \<open>raise_for_status\<close>. The session is the one \<open>_create_session_with_retries\<close>
  builds, with urllib3's \<open>Retry(total=max_retries, status_forcelist=[429, 500, 502, 503,
  504])\<close> mounted: a response with one of these statuses, or a connection that cannot
  be made, is retried inside the call, which then returns the later response or raises
  \<open>RetryError\<close> (here \<open>OtherRequestException\<close>) or \<open>ConnectionError\<close>. So a call of
  this session does not end in \<open>HTTPError\<close> with a status of that list, and the branch
  of \<open>stream_to_file\<close> for these statuses, which the model keeps as the source has it,
  is not reached through it. What the mounted retries do not cover is the body: an
  exception while the body is read (a read timeout gives \<open>ConnectionError\<close>, a broken
  transfer \<open>ChunkedEncodingError\<close>) reaches the function.
\<close>

type_synonym network = "request list \<Rightarrow> request \<Rightarrow> exn + response"

text \<open>
  The fields of the \<open>Downloader\<close> object that \<open>stream_to_file\<close>, \<open>get_string\<close> and
  \<open>get_bytes\<close> read or write (\<open>self.total\<close> is \<open>total_attr\<close> here).
\<close>

record downloader =
  max_retries :: nat
  retry_delay :: nat
  bytes_downloaded :: int
  total_attr :: int
  resume_header :: "int option"

definition new_Downloader :: downloader where
  "new_Downloader =
     \<lparr> max_retries = 5, retry_delay = 3, bytes_downloaded = 0, total_attr = - 1,
       resume_header = None \<rparr>"

text \<open>
  What the function does to the world: the files (a path is absent or a regular,
  writable file), the requests sent, the delays slept, the calls of the progress
  callback \<open>(bytes_downloaded, total)\<close>, and how often the cancel event was polled.
\<close>

record world =
  disk :: "string \<Rightarrow> byte list option"
  requests :: "request list"
  slept :: "nat list"
  progress :: "(int \<times> int) list"
  polls :: nat

text \<open>
  The arguments of \<open>stream_to_file\<close>. The cancel event is set by another thread: it is
  absent, or answers the n-th call of \<open>is_set()\<close>. The parent window is absent, or
  present with the answer the user gives to the overwrite dialog. The callback is absent
  or present.
\<close>

record args =
  file_path :: string
  resume_bytes :: int
  total_bytes :: int
  allow_resume :: bool
  callback :: bool
  cancel_event :: "(nat \<Rightarrow> bool) option"
  parent_window :: "bool option"

type_synonym state = "downloader \<times> world"

definition send :: "network \<Rightarrow> request \<Rightarrow> world \<Rightarrow> (exn + response) \<times> world" where
  "send net req w = (net (requests w) req, w\<lparr>requests := requests w @ [req]\<rparr>)"

text \<open>\<open>cancel_event and cancel_event.is_set()\<close>\<close>

definition cancelled :: "args \<Rightarrow> world \<Rightarrow> bool \<times> world" where
  "cancelled a w =
     (case cancel_event a of
        None \<Rightarrow> (False, w)
      | Some is_set \<Rightarrow> (is_set (polls w), w\<lparr>polls := polls w + 1\<rparr>))"

definition sleep_and_double :: "state \<Rightarrow> state" where
  "sleep_and_double s =
     (case s of (d, w) \<Rightarrow>
        (d\<lparr>retry_delay := retry_delay d * 2\<rparr>, w\<lparr>slept := slept w @ [retry_delay d]\<rparr>))"

definition remove_file :: "string \<Rightarrow> world \<Rightarrow> world" where
  "remove_file path w = w\<lparr>disk := (disk w)(path := None)\<rparr>"

text \<open>
  \<open>open(file_path, "ab")\<close> keeps what the file holds and creates it if absent;
  \<open>open(file_path, "wb")\<close> leaves it empty.
\<close>

definition open_for_writing :: "bool \<Rightarrow> string \<Rightarrow> world \<Rightarrow> world" where
  "open_for_writing appending path w =
     (if appending
        then w\<lparr>disk := (disk w)(path \<mapsto> (case disk w path of None \<Rightarrow> [] | Some bs \<Rightarrow> bs))\<rparr>
      else w\<lparr>disk := (disk w)(path \<mapsto> [])\<rparr>)"

definition f_write :: "string \<Rightarrow> byte list \<Rightarrow> world \<Rightarrow> world" where
  "f_write path chunk w =
     w\<lparr>disk := (disk w)(path \<mapsto> (case disk w path of None \<Rightarrow> [] | Some bs \<Rightarrow> bs) @ chunk)\<rparr>"

definition resuming :: "args \<Rightarrow> bool" where
  "resuming a = (allow_resume a \<and> resume_bytes a > 0)"

subsection \<open>One attempt of \<open>stream_to_file\<close>: the body of the \<open>try\<close>\<close>

text \<open>
  How the \<open>try\<close> block of one attempt ends without an exception: by \<open>return\<close>, by
  \<open>continue\<close>, or by reaching its end (a size mismatch on the last attempt).
\<close>

datatype flow = FReturn "string option" | FContinue | FFallThrough

text \<open>The loop over \<open>req.iter_content\<close>: \<open>True\<close> when the cancel event ended it.\<close>

fun write_chunks :: "args \<Rightarrow> byte list list \<Rightarrow> state \<Rightarrow> bool \<times> state" where
  "write_chunks a [] s = (False, s)"
| "write_chunks a (chunk # rest) s =
     (case s of (d, w) \<Rightarrow>
      (case cancelled a w of (c, w1) \<Rightarrow>
        if c then (True, (d, w1))
        else if chunk \<noteq> [] then
          (let w2 = f_write (file_path a) chunk w1;
               d2 = d\<lparr>bytes_downloaded := bytes_downloaded d + int (length chunk)\<rparr>;
               w3 = (if callback a
                     then w2\<lparr>progress := progress w2 @ [(bytes_downloaded d2, total_attr d2)]\<rparr>
                     else w2)
           in write_chunks a rest (d2, w3))
        else write_chunks a rest (d, w1)))"

text \<open>"Verify download completed successfully"\<close>

definition verify_size :: "args \<Rightarrow> nat \<Rightarrow> state \<Rightarrow> (exn + flow) \<times> state" where
  "verify_size a attempt s =
     (case s of (d, w) \<Rightarrow>
      (case disk w (file_path a) of
         Some bs \<Rightarrow>
           (let actual_size = int (length bs) in
            if total_attr d > 0 \<and> actual_size \<noteq> total_attr d then
              (if attempt < max_retries d
                 then (Inr FContinue, sleep_and_double (d, remove_file (file_path a) w))
               else (Inr FFallThrough, (d, w)))
            else (Inr (FReturn (Some (file_path a))), (d, w)))
       | None \<Rightarrow> (Inr (FReturn None), (d, w))))"

text \<open>"Download the file"\<close>

definition download_body :: "args \<Rightarrow> nat \<Rightarrow> response \<Rightarrow> state \<Rightarrow> (exn + flow) \<times> state" where
  "download_body a attempt req s =
     (case s of (d, w) \<Rightarrow>
      (case write_chunks a (body req) (d, open_for_writing (resuming a) (file_path a) w) of
         (c, s1) \<Rightarrow>
           if c then (Inr (FReturn None), s1)
           else (case body_end req of
                   Some e \<Rightarrow> (Inl e, s1)
                 | None \<Rightarrow> verify_size a attempt s1)))"

text \<open>"Start the download" and "Get total size from response headers if not already set"\<close>

definition start_download :: "network \<Rightarrow> args \<Rightarrow> nat \<Rightarrow> state \<Rightarrow> (exn + flow) \<times> state" where
  "start_download net a attempt s =
     (case s of (d, w) \<Rightarrow>
      (case cancelled a w of (c, w1) \<Rightarrow>
        if c then (Inr (FReturn None), (d, w1))
        else
          (case send net (GET (resume_header d)) w1 of
             (Inl e, w2) \<Rightarrow> (Inl e, (d, w2))
           | (Inr req, w2) \<Rightarrow>
               (let d2 = (if total_attr d = - 1
                          then (case content_length req of
                                  NoHeader \<Rightarrow> d\<lparr>total_attr := 0\<rparr>
                                | Length n \<Rightarrow> d\<lparr>total_attr := n\<rparr>
                                | NotANumber \<Rightarrow> d)
                          else d)
                in download_body a attempt req (d2, w2)))))"

text \<open>
  "Get total file size if not provided": the \<open>HEAD\<close> request. A \<open>RequestException\<close>
  is caught and passed over; the \<open>ValueError\<close> of \<open>int\<close> on a header that is not a
  number is not a \<open>RequestException\<close> and leaves the \<open>try\<close> of the attempt.
\<close>

definition get_total_size :: "network \<Rightarrow> args \<Rightarrow> state \<Rightarrow> (exn + flow option) \<times> state" where
  "get_total_size net a s =
     (case s of (d, w) \<Rightarrow>
      if total_attr d = - 1 \<and> allow_resume a \<and> resume_bytes a > 0 then
        (case cancelled a w of (c, w1) \<Rightarrow>
          if c then (Inr (Some (FReturn None)), (d, w1))
          else
            (case send net HEAD w1 of
               (Inl e, w2) \<Rightarrow>
                 if is_RequestException e then (Inr None, (d, w2)) else (Inl e, (d, w2))
             | (Inr head_req, w2) \<Rightarrow>
                 (case content_length head_req of
                    NoHeader \<Rightarrow> (Inr None, (d\<lparr>total_attr := 0\<rparr>, w2))
                  | Length n \<Rightarrow> (Inr None, (d\<lparr>total_attr := n\<rparr>, w2))
                  | NotANumber \<Rightarrow> (Inl OtherException, (d, w2)))))
      else (Inr None, (d, w)))"

definition try_block :: "network \<Rightarrow> args \<Rightarrow> nat \<Rightarrow> state \<Rightarrow> (exn + flow) \<times> state" where
  "try_block net a attempt s =
     (case s of (d, w) \<Rightarrow>
      (let d1 = d\<lparr>bytes_downloaded := resume_bytes a, total_attr := total_bytes a\<rparr> in
       case cancelled a w of (c, w1) \<Rightarrow>
         if c then (Inr (FReturn None), (d1, w1))
         else
           (let d2 = d1\<lparr>resume_header := (if allow_resume a \<and> resume_bytes a > 0
                                           then Some (resume_bytes a) else None)\<rparr> in
            case get_total_size net a (d2, w1) of
              (Inl e, s3) \<Rightarrow> (Inl e, s3)
            | (Inr (Some fl), s3) \<Rightarrow> (Inr fl, s3)
            | (Inr None, s3) \<Rightarrow> start_download net a attempt s3)))"

subsection \<open>The \<open>except\<close> clauses\<close>

text \<open>
  How an attempt ends for the loop: the function returns, the loop goes on to the next
  attempt, or (status 416 while resuming) the function calls itself from scratch.
\<close>

datatype outcome = OReturn "string option" | ONext | ORestart

definition handle_exception :: "args \<Rightarrow> nat \<Rightarrow> exn \<Rightarrow> state \<Rightarrow> outcome \<times> state" where
  "handle_exception a attempt e s =
     (case s of (d, w) \<Rightarrow>
      (case e of
         HTTPError status_code \<Rightarrow>
           if status_code = 416 \<and> allow_resume a \<and> resume_bytes a > 0 then
             (ORestart,
              (d, if disk w (file_path a) \<noteq> None then remove_file (file_path a) w else w))
           else if status_code \<in> set [429, 500, 502, 503, 504] \<and> attempt < max_retries d
             then (ONext, sleep_and_double (d, w))
           else if status_code = 404 then (OReturn None, (d, w))
           else if status_code = 403 then (OReturn None, (d, w))
           else (OReturn None, (d, w))
       | ConnectionError \<Rightarrow>
           if attempt < max_retries d then (ONext, sleep_and_double (d, w))
           else (OReturn None, (d, w))
       | Timeout \<Rightarrow>
           if attempt < max_retries d then (ONext, sleep_and_double (d, w))
           else (OReturn None, (d, w))
       | _ \<Rightarrow>
           if attempt < max_retries d then (ONext, sleep_and_double (d, w))
           else (OReturn None, (d, w))))"

definition attempt_once :: "network \<Rightarrow> args \<Rightarrow> nat \<Rightarrow> state \<Rightarrow> outcome \<times> state" where
  "attempt_once net a attempt s =
     (case try_block net a attempt s of
        (Inr (FReturn r), s1) \<Rightarrow> (OReturn r, s1)
      | (Inr FContinue, s1) \<Rightarrow> (ONext, s1)
      | (Inr FFallThrough, s1) \<Rightarrow> (ONext, s1)
      | (Inl e, s1) \<Rightarrow> handle_exception a attempt e s1)"

text \<open>The arguments of the recursive call in the 416 branch.\<close>

definition from_scratch :: "args \<Rightarrow> args" where
  "from_scratch a =
     a\<lparr>resume_bytes := 0, total_bytes := - 1, allow_resume := False, parent_window := None\<rparr>"

subsection \<open>\<open>stream_to_file\<close>\<close>

text \<open>
  "File existence check and GUI dialog": true when the function returns \<open>None\<close> before
  any request, because the file exists, \<open>resume_bytes\<close> is 0, and either there is no
  parent window or the user declines to overwrite.
\<close>

definition skip_existing :: "args \<Rightarrow> world \<Rightarrow> bool" where
  "skip_existing a w =
     (if disk w (file_path a) \<noteq> None \<and> resume_bytes a = 0 then
        (case parent_window a of
           Some overwrite \<Rightarrow> \<not> overwrite
         | None \<Rightarrow> True)
      else False)"

text \<open>
  The function and its loop \<open>for attempt in range(self.max_retries + 1)\<close>; \<open>n\<close> is the
  bound of the range, fixed when the loop starts. After the loop the retry delay is
  reset and \<open>None\<close> returned. The recursive call of the 416 branch is made only while
  resuming and its arguments do not resume, so the recursion ends.
\<close>

function stream_to_file :: "network \<Rightarrow> args \<Rightarrow> state \<Rightarrow> string option \<times> state"
  and attempt_loop ::
    "network \<Rightarrow> args \<Rightarrow> nat \<Rightarrow> nat \<Rightarrow> nat \<Rightarrow> state \<Rightarrow> string option \<times> state"
where
  "stream_to_file net a s =
     (if skip_existing a (snd s) then (None, s)
      else attempt_loop net a (retry_delay (fst s)) 0 (max_retries (fst s) + 1) s)"
| "attempt_loop net a original_retry_delay attempt n s =
     (if attempt < n then
        (let r = attempt_once net a attempt s in
         case fst r of
           OReturn result \<Rightarrow> (result, snd r)
         | ONext \<Rightarrow> attempt_loop net a original_retry_delay (Suc attempt) n (snd r)
         | ORestart \<Rightarrow> stream_to_file net (from_scratch a) (snd r))
      else (None, ((fst s)\<lparr>retry_delay := original_retry_delay\<rparr>, snd s)))"
  by pat_completeness auto
termination
proof (relation "measures
    [\<lambda>x. case x of Inl (net, a, s) \<Rightarrow> (if resuming a then 1 else 0)
                 | Inr (net, a, original, attempt, n, s) \<Rightarrow> (if resuming a then 1 else 0),
     \<lambda>x. case x of Inl _ \<Rightarrow> 1 | Inr _ \<Rightarrow> 0,
     \<lambda>x. case x of Inl _ \<Rightarrow> 0 | Inr (net, a, original, attempt, n, s) \<Rightarrow> n - attempt]",
    goal_cases)
  case 1
  then show ?case by simp
next
  case 2
  then show ?case by simp
next
  case 3
  then show ?case by auto
next
  case 4
  then show ?case
    by (auto simp add: attempt_once_def handle_exception_def resuming_def from_scratch_def
        split: prod.splits sum.splits flow.splits exn.splits if_splits)
qed

subsection \<open>\<open>get_bytes\<close> and \<open>get_string\<close>\<close>

text \<open>
  A request that is not streamed reads the whole body inside \<open>session.get\<close>: an
  exception part-way through the body is an exception of the request.
\<close>

definition fetch :: "network \<Rightarrow> world \<Rightarrow> (exn + byte list) \<times> world" where
  "fetch net w =
     (case send net (GET None) w of
        (Inl e, w1) \<Rightarrow> (Inl e, w1)
      | (Inr req, w1) \<Rightarrow>
          (case body_end req of
             Some e \<Rightarrow> (Inl e, w1)
           | None \<Rightarrow> (Inr (concat (body req)), w1)))"

text \<open>
  The two functions differ in what they return: \<open>req.content\<close>, or
  \<open>req.content.decode("utf-8")\<close>, which raises on bytes that are not UTF-8 (no
  \<open>RequestException\<close>, so it leaves the function). The decoding is the parameter
  \<open>decode\<close>. Only a \<open>RequestException\<close> is caught and retried.
\<close>

function get_loop ::
  "network \<Rightarrow> (byte list \<Rightarrow> 'a option) \<Rightarrow> nat \<Rightarrow> nat \<Rightarrow> state \<Rightarrow> (exn + 'a option) \<times> state"
where
  "get_loop net decode attempt n s =
     (if attempt < n then
        (case fetch net (snd s) of
           (Inr content, w1) \<Rightarrow>
             (case decode content of
                Some v \<Rightarrow> (Inr (Some v), (fst s, w1))
              | None \<Rightarrow> (Inl OtherException, (fst s, w1)))
         | (Inl e, w1) \<Rightarrow>
             if is_RequestException e then
               (if attempt < max_retries (fst s)
                  then get_loop net decode (Suc attempt) n (sleep_and_double (fst s, w1))
                else (Inr None, (fst s, w1)))
             else (Inl e, (fst s, w1)))
      else (Inr None, s))"
  by pat_completeness auto
termination
  by (relation "measure (\<lambda>(net, decode, attempt, n, s). n - attempt)") auto

definition get_bytes :: "network \<Rightarrow> state \<Rightarrow> (exn + byte list option) \<times> state" where
  "get_bytes net s = get_loop net Some 0 (max_retries (fst s) + 1) s"

definition get_string ::
  "(byte list \<Rightarrow> string option) \<Rightarrow> network \<Rightarrow> state \<Rightarrow> (exn + string option) \<times> state" where
  "get_string utf8 net s = get_loop net utf8 0 (max_retries (fst s) + 1) s"

text \<open>
  The state in which the 416 branch makes its recursive call: the state the failed
  attempt left, with the destination file removed.
\<close>

definition restart_state :: "args \<Rightarrow> state \<Rightarrow> state" where
  "restart_state a s = (fst s, remove_file (file_path a) (snd s))"

section \<open>Example inputs\<close>

definition example_digest :: hash_fn where
  "example_digest bs = replicate 32 (of_nat (length bs))"

definition example_header :: "byte \<Rightarrow> byte list" where
  "example_header sm =
     [0x43, 0x4E, 0x4B, 0x4C,  0x24, 0, 0, 0,  1, 1, sm, 0,
      1, 0, 0, 0, 0, 0, 0, 0,  0x24, 0, 0, 0, 0, 0, 0, 0,  0x48, 0, 0, 0, 0, 0, 0, 0]"

definition example_chunk :: "byte list" where
  "example_chunk = [3, 0, 0, 0] @ replicate 32 3"


definition example_header_zero :: "byte list" where
  "example_header_zero =
     [0x43, 0x4E, 0x4B, 0x4C,  0x24, 0, 0, 0,  1, 1, 1, 0,
      0, 0, 0, 0, 0, 0, 0, 0,  0x24, 0, 0, 0, 0, 0, 0, 0,  0x24, 0, 0, 0, 0, 0, 0, 0]"

definition example_header_bad_magic :: "byte list" where
  "example_header_bad_magic = (example_header 1)[0 := 0x58]"

text \<open>Inputs for the downloader: a call, a disk holding at most the destination file.\<close>

definition example_args :: "int \<Rightarrow> int \<Rightarrow> args" where
  "example_args offset expected =
     \<lparr> file_path = ''a.dmg'', resume_bytes = offset, total_bytes = expected,
       allow_resume = True, callback = False, cancel_event = None, parent_window = None \<rparr>"

definition example_world :: "byte list option \<Rightarrow> world" where
  "example_world content =
     \<lparr> disk = (\<lambda>p. if p = ''a.dmg'' then content else None), requests = [], slept = [],
       progress = [], polls = 0 \<rparr>"

definition ok :: "content_length \<Rightarrow> byte list list \<Rightarrow> exn option \<Rightarrow> exn + response" where
  "ok cl chunks ending = Inr \<lparr> content_length = cl, body = chunks, body_end = ending \<rparr>"

text \<open>A server that sends one byte and ends the body early on the first request only.\<close>

definition short_then_tail :: network where
  "short_then_tail history req =
     (if history = [] then ok (Length 3) [[3]] None else ok (Length 3) [[3, 4], [5]] None)"

text \<open>
  A server without \<open>HEAD\<close> whose response to the first \<open>GET\<close> breaks off after
  one chunk, by a read timeout while the body is read; a \<open>GET\<close> it has seen before
  is served in full.
\<close>

definition drop_then_serve :: "byte list \<Rightarrow> byte list list \<Rightarrow> network" where
  "drop_then_serve first full history req =
     (case req of
        HEAD \<Rightarrow> Inl (HTTPError 405)
      | GET offset \<Rightarrow>
          if req \<in> set history then ok NoHeader full None
          else ok NoHeader [first] (Some ConnectionError))"

text \<open>A server that refuses the range of the resumed request and serves the whole file.\<close>

definition refuse_range :: network where
  "refuse_range history req =
     (case req of
        HEAD \<Rightarrow> Inl (HTTPError 405)
      | GET (Some offset) \<Rightarrow> Inl (HTTPError 416)
      | GET None \<Rightarrow> ok (Length 3) [[1, 2, 3]] None)"

text \<open>
  What is looked at after a run: the result, the retry delay left in the object, the
  requests sent, the destination file, and the delays slept.
\<close>

definition view ::
  "'a \<times> state \<Rightarrow> 'a \<times> nat \<times> request list \<times> byte list option \<times> nat list" where
  "view r =
     (fst r, retry_delay (fst (snd r)), requests (snd (snd r)), disk (snd (snd r)) ''a.dmg'',
      slept (snd (snd r)))"

definition ascii :: "byte list \<Rightarrow> string option" where
  "ascii bs = Some (map (\<lambda>b. char_of (unat b)) bs)"
section \<open>Properties of the verifier\<close>

lemma for_chunks_not_Returned_True: "for_chunks H g f \<noteq> Returned True"
  by (induction H g f rule: for_chunks.induct) (simp_all split: sum.splits)

lemma try_body_not_True: "try_body H fs target_path manifest_path \<noteq> Inr True"
  using for_chunks_not_Returned_True [of H "verify_chunklist H fs manifest_path"]
  by (auto simp add: try_body_def with_exit_def split: sum.splits loop_exit.splits)

text \<open>
  C1. For a valid manifest and a target file made of exactly the chunks it describes,
  \<open>verify_file_against_chunklist\<close> should return \<open>True\<close>. The code cannot: on every
  input, valid ones included, the result is not \<open>True\<close>, because the read that checks
  for leftover bytes is made on the closed file and its \<open>ValueError\<close> is turned into
  \<open>False\<close>.
\<close>

theorem verify_file_never_True:
  "verify_file_against_chunklist H fs target_path manifest_path \<noteq> Inr True"
  using try_body_not_True [of H fs target_path manifest_path]
  by (auto simp add: verify_file_against_chunklist_def split: sum.splits)


lemma read_chunks_complete:
  "length table = CHUNK_size * n \<Longrightarrow>
   gen_result (read_chunks H sm n ctx (Open (table @ rest))) =
   gen_result (verify_signature H sm (ctx @ table) (Open rest))"
proof (induction n arbitrary: table ctx)
  case 0
  then show ?case by simp
next
  case (Suc n)
  define c where "c = take CHUNK_size table"
  define t where "t = drop CHUNK_size table"
  have tab: "table = c @ t" by (simp add: c_def t_def)
  have lc: "length c = CHUNK_size" using Suc.prems by (simp add: c_def)
  have lt: "length t = CHUNK_size * n" using Suc.prems by (simp add: t_def)
  have "gen_result (read_chunks H sm (Suc n) ctx (Open (table @ rest))) =
        gen_result (read_chunks H sm n (ctx @ c) (Open (t @ rest)))"
    by (simp add: tab lc)
  also have "\<dots> = gen_result (verify_signature H sm ((ctx @ c) @ t) (Open rest))"
    by (rule Suc.IH [OF lt])
  finally show ?case by (simp add: tab)
qed

lemma read_chunks_truncated:
  "length bs < CHUNK_size * n \<Longrightarrow>
   gen_result (read_chunks H sm n ctx (Open bs)) =
   Some (ValueError ''Invalid chunklist: chunk data truncated'')"
proof (induction n arbitrary: bs ctx)
  case 0
  then show ?case by simp
next
  case (Suc n)
  show ?case
  proof (cases "length bs < CHUNK_size")
    case True
    then show ?thesis by simp
  next
    case False
    then have "length (drop CHUNK_size bs) < CHUNK_size * n"
      using Suc.prems by simp
    from Suc.IH [OF this] False show ?thesis by simp
  qed
qed

lemma verify_chunklist_valid_header:
  assumes "fs p = Some (Regular bs)" and "CHUNKLIST_HEADER_size \<le> length bs"
    and "check_header (unpack_header (take CHUNKLIST_HEADER_size bs)) = None"
  shows "verify_chunklist H fs p =
         read_chunks H (signature_method (unpack_header (take CHUNKLIST_HEADER_size bs)))
           (chunk_count (unpack_header (take CHUNKLIST_HEADER_size bs)))
           (take CHUNKLIST_HEADER_size bs) (Open (drop CHUNKLIST_HEADER_size bs))"
  using assms by (simp add: verify_chunklist_def path_exists_def open_rb_def Let_def)

lemma verify_chunklist_bad_header:
  assumes "fs p = Some (Regular bs)" and "CHUNKLIST_HEADER_size \<le> length bs"
    and "check_header (unpack_header (take CHUNKLIST_HEADER_size bs)) = Some e"
  shows "verify_chunklist H fs p = Raise e"
  using assms by (simp add: verify_chunklist_def path_exists_def open_rb_def Let_def)

lemma verify_chunklist_short_header:
  assumes "fs p = Some (Regular bs)" and "length bs < CHUNKLIST_HEADER_size"
  shows "verify_chunklist H fs p = Raise (ValueError ''Invalid chunklist: header too short'')"
  using assms by (simp add: verify_chunklist_def path_exists_def open_rb_def Let_def)

lemma verify_signature_method_2:
  "gen_result (verify_signature H 2 ctx (Open bs)) =
   Some (if take 32 bs = H ctx then RuntimeError ''Chunklist missing digital signature''
         else ValueError ''Invalid chunklist: hash verification failed'')"
  by (simp add: verify_signature_def Let_def)

lemma verify_signature_method_1:
  "gen_result (verify_signature H 1 ctx (Open bs)) =
   (if length bs < 256 then Some (ValueError ''Invalid chunklist: signature truncated'')
    else if \<not> rsa_signature_ok (take 256 bs) (H ctx)
      then Some (ValueError ''Invalid chunklist: signature verification failed'')
    else if 256 < length bs
      then Some (ValueError ''Invalid chunklist: extra data after signature'')
    else None)"
  by (auto simp add: verify_signature_def ensure_completely_read_def Let_def)

lemmas verify_signature_method_Suc_0 = verify_signature_method_1 [unfolded One_nat_def]

subsection \<open>Integers from bytes and the padded encoding\<close>

lemma from_bytes_little_zeros: "from_bytes_little (replicate n 0) = 0"
  by (induction n) simp_all

lemma foldl_big_shift:
  "foldl (\<lambda>acc b. 256 * acc + unat (b::byte)) a ys =
   a * 256 ^ length ys + foldl (\<lambda>acc b. 256 * acc + unat b) 0 ys"
proof (induction ys arbitrary: a)
  case Nil
  then show ?case by simp
next
  case (Cons y ys)
  have "foldl (\<lambda>acc b. 256 * acc + unat b) a (y # ys) =
        (256 * a + unat y) * 256 ^ length ys + foldl (\<lambda>acc b. 256 * acc + unat b) 0 ys"
    using Cons.IH [of "256 * a + unat y"] by simp
  moreover have "foldl (\<lambda>acc b. 256 * acc + unat b) 0 (y # ys) =
        unat y * 256 ^ length ys + foldl (\<lambda>acc b. 256 * acc + unat b) 0 ys"
    using Cons.IH [of "unat y"] by simp
  ultimately show ?case by (simp add: algebra_simps)
qed

lemma from_bytes_big_append:
  "from_bytes_big (xs @ ys) = from_bytes_big xs * 256 ^ length ys + from_bytes_big ys"
  unfolding from_bytes_big_def foldl_append by (rule foldl_big_shift)

lemma from_bytes_big_Cons:
  "from_bytes_big (x # xs) = unat x * 256 ^ length xs + from_bytes_big xs"
  using from_bytes_big_append [of "[x]" xs] by (simp add: from_bytes_big_def)

lemma from_bytes_big_Nil: "from_bytes_big [] = 0"
  by (simp add: from_bytes_big_def)

lemma from_bytes_big_zeros: "from_bytes_big (replicate n 0) = 0"
  by (induction n) (simp_all add: from_bytes_big_Nil from_bytes_big_Cons)

lemma from_bytes_big_ones: "from_bytes_big (replicate n 0xFF) + 1 = 256 ^ n"
  by (induction n) (simp_all add: from_bytes_big_Nil from_bytes_big_Cons)

lemma from_bytes_big_less: "from_bytes_big xs < 256 ^ length xs"
proof (induction xs)
  case Nil
  then show ?case by (simp add: from_bytes_big_Nil)
next
  case (Cons x xs)
  define P :: nat where "P = 256 ^ length xs"
  have "unat x \<le> 255" using unsigned_less [of x, where 'a = nat] by simp
  then have a: "unat x * P \<le> 255 * P" by (rule mult_le_mono1)
  have b: "from_bytes_big xs < P" using Cons.IH by (simp add: P_def)
  have "unat x * P + from_bytes_big xs < 256 * P" using a b by linarith
  then show ?case by (simp add: from_bytes_big_Cons P_def)
qed

lemma or_shifted_eq_add:
  fixes a b :: nat
  assumes "b < 2 ^ n"
  shows "(a * 2 ^ n) OR b = a * 2 ^ n + b"
proof -
  have "(a * 2 ^ n) AND b = 0"
  proof (rule bit_eqI)
    fix k
    have "\<not> bit b k" if "n \<le> k"
    proof -
      have "b < 2 ^ k" using assms that
        by (meson less_le_trans one_le_numeral power_increasing)
      then show ?thesis by (simp add: bit_iff_odd)
    qed
    then show "bit ((a * 2 ^ n) AND b) k = bit (0::nat) k"
      by (auto simp add: bit_and_iff push_bit_eq_mult [symmetric] bit_push_bit_iff)
  qed
  from disjunctive_add_eq_or [OF this] show ?thesis by simp
qed

lemma encoding_prefix_value:
  "from_bytes_big ([0x00, 0x01] @ replicate 202 0xFF @ [0x00] @ sha256_digest_info) * 16 ^ 64
   = padding_template"
proof -
  have ones: "from_bytes_big (replicate 202 0xFF) = 256 ^ 202 - 1"
    using from_bytes_big_ones [of 202] by simp
  have p16: "(16::nat) ^ 404 = 256 ^ 202"
    using power_mult [of "16::nat" 2 202] by simp
  show ?thesis
    apply (simp only: from_bytes_big_append [of "[0x00, 0x01]"] from_bytes_big_append [of "replicate 202 0xFF"]
        from_bytes_big_append [of "[0x00]"] ones padding_template_def p16)
    apply (simp add: from_bytes_big_def sha256_digest_info_def sha256_oid_def)
    done
qed

lemma plaintext_is_pkcs1_encoding:
  assumes "length digest = 32"
  shows "plaintext_of digest = from_bytes_big (pkcs1_v15_encoding digest)"
proof -
  let ?pre = "[0x00, 0x01] @ replicate 202 0xFF @ [0x00] @ sha256_digest_info"
  have p16: "(16::nat) ^ 64 = 2 ^ 256" by simp
  have p256: "(256::nat) ^ 32 = 2 ^ 256" by simp
  have lt: "from_bytes_big digest < 2 ^ 256"
    using from_bytes_big_less [of digest] by (simp only: assms p256)
  have pt: "padding_template = from_bytes_big ?pre * 2 ^ 256"
    by (simp only: encoding_prefix_value [symmetric] p16)
  have "plaintext_of digest = from_bytes_big ?pre * 2 ^ 256 OR from_bytes_big digest"
    by (simp only: plaintext_of_def pt)
  also have "\<dots> = from_bytes_big ?pre * 2 ^ 256 + from_bytes_big digest"
    by (rule or_shifted_eq_add [OF lt])
  also have "\<dots> = from_bytes_big (?pre @ digest)"
    by (simp only: from_bytes_big_append [of ?pre digest] assms p256)
  finally show ?thesis by (simp add: pkcs1_v15_encoding_def)
qed

lemma padding_template_nonzero: "padding_template \<noteq> 0"
  by (simp add: padding_template_def)

lemma plaintext_nonzero: "plaintext_of digest \<noteq> 0"
  using padding_template_nonzero by (simp add: plaintext_of_def or_eq_0_iff)

lemma zero_signature_fails: "\<not> rsa_signature_ok (replicate 256 0) digest"
  using plaintext_nonzero [of digest]
  by (simp add: rsa_signature_ok_def pow_mod_def signature_of_def from_bytes_little_zeros)


lemma verify_chunklist_result:
  assumes "fs p = Some (Regular bs)" and "CHUNKLIST_HEADER_size \<le> length bs"
    and "check_header (unpack_header (take CHUNKLIST_HEADER_size bs)) = None"
    and "n = chunk_count (unpack_header (take CHUNKLIST_HEADER_size bs))"
    and "sm = signature_method (unpack_header (take CHUNKLIST_HEADER_size bs))"
  shows "gen_result (verify_chunklist H fs p) =
         (if length bs < CHUNKLIST_HEADER_size + CHUNK_size * n
            then Some (ValueError ''Invalid chunklist: chunk data truncated'')
          else gen_result (verify_signature H sm (take (CHUNKLIST_HEADER_size + CHUNK_size * n) bs)
                 (Open (drop (CHUNKLIST_HEADER_size + CHUNK_size * n) bs))))"
proof -
  let ?rest = "drop CHUNKLIST_HEADER_size bs"
  have vc: "verify_chunklist H fs p = read_chunks H sm n (take CHUNKLIST_HEADER_size bs) (Open ?rest)"
    using verify_chunklist_valid_header [where fs=fs and p=p, OF assms(1-3)] assms(4,5) by simp
  show ?thesis
  proof (cases "length bs < CHUNKLIST_HEADER_size + CHUNK_size * n")
    case True
    then have "length ?rest < CHUNK_size * n" using assms(2) by simp
    from read_chunks_truncated [OF this] True vc show ?thesis by simp
  next
    case False
    define table where "table = take (CHUNK_size * n) ?rest"
    define rest where "rest = drop (CHUNK_size * n) ?rest"
    have split: "?rest = table @ rest"
      unfolding table_def rest_def by (rule append_take_drop_id [symmetric])
    have len: "length table = CHUNK_size * n" using False by (simp add: table_def)
    have ctx: "take CHUNKLIST_HEADER_size bs @ table = take (CHUNKLIST_HEADER_size + CHUNK_size * n) bs"
      by (simp add: table_def take_add)
    have rst: "rest = drop (CHUNKLIST_HEADER_size + CHUNK_size * n) bs"
      by (simp add: rest_def add.commute)
    have "gen_result (verify_chunklist H fs p) =
          gen_result (read_chunks H sm n (take CHUNKLIST_HEADER_size bs) (Open (table @ rest)))"
      using vc split by simp
    also have "\<dots> = gen_result (verify_signature H sm (take CHUNKLIST_HEADER_size bs @ table) (Open rest))"
      by (rule read_chunks_complete [OF len])
    finally show ?thesis using False ctx rst by simp
  qed
qed

lemma check_header_cases:
  "check_header h = None \<or> (\<exists>msg. check_header h = Some (ValueError msg))"
  by (simp add: check_header_def)

lemma method_2_raises:
  assumes "fs p = Some (Regular bs)"
    and "signature_method (unpack_header (take CHUNKLIST_HEADER_size bs)) = 2"
  shows "\<exists>e. gen_result (verify_chunklist H fs p) = Some e"
proof (cases "length bs < CHUNKLIST_HEADER_size")
  case True
  from verify_chunklist_short_header [where fs=fs and p=p, OF assms(1) this] show ?thesis by simp
next
  case False
  then have len: "CHUNKLIST_HEADER_size \<le> length bs" by simp
  show ?thesis
  proof (cases "check_header (unpack_header (take CHUNKLIST_HEADER_size bs))")
    case None
    from verify_chunklist_result [where fs=fs and p=p and H=H, OF assms(1) len None refl refl] assms(2)
    show ?thesis by (simp add: verify_signature_method_2)
  next
    case (Some e)
    from verify_chunklist_bad_header [where fs=fs and p=p, OF assms(1) len Some] show ?thesis by simp
  qed
qed

text \<open>
  C3. A manifest whose header declares signature method 2 is never accepted: run to its
  end, \<open>verify_chunklist\<close> raises. When the header is valid and the chunk table is
  complete, the error is \<open>RuntimeError\<close> (missing digital signature) if the trailing
  32 bytes equal the running digest and \<open>ValueError\<close> (hash verification failed) if
  they do not, whatever those 32 bytes are.
\<close>

theorem signature_method_2_always_rejected:
  assumes "fs p = Some (Regular bs)"
    and "signature_method (unpack_header (take 36 bs)) = 2"
  shows "(\<exists>e. gen_result (verify_chunklist H fs p) = Some e) \<and>
         (bs = hdr @ table @ hash @ extra \<and> length hdr = 36 \<and>
          check_header (unpack_header hdr) = None \<and>
          length table = 36 * chunk_count (unpack_header hdr) \<and> length hash = 32 \<longrightarrow>
          gen_result (verify_chunklist H fs p) =
            Some (if hash = H (hdr @ table)
                  then RuntimeError ''Chunklist missing digital signature''
                  else ValueError ''Invalid chunklist: hash verification failed''))"
proof (intro conjI impI)
  show "\<exists>e. gen_result (verify_chunklist H fs p) = Some e"
    using method_2_raises [where fs=fs and p=p and H=H, OF assms(1)] assms(2) by (simp add: CHUNKLIST_HEADER_size_def)
next
  assume a: "bs = hdr @ table @ hash @ extra \<and> length hdr = 36 \<and>
          check_header (unpack_header hdr) = None \<and>
          length table = 36 * chunk_count (unpack_header hdr) \<and> length hash = 32"
  then have hdr: "take CHUNKLIST_HEADER_size bs = hdr" by (simp add: CHUNKLIST_HEADER_size_def)
  have len: "CHUNKLIST_HEADER_size \<le> length bs" using a by (simp add: CHUNKLIST_HEADER_size_def)
  have ok: "check_header (unpack_header (take CHUNKLIST_HEADER_size bs)) = None"
    using a hdr by simp
  have sm: "signature_method (unpack_header hdr) = 2" using assms(2) hdr
    by (simp add: CHUNKLIST_HEADER_size_def)
  from verify_chunklist_result [where fs=fs and p=p and H=H, OF assms(1) len ok refl refl] a sm
  show "gen_result (verify_chunklist H fs p) =
            Some (if hash = H (hdr @ table)
                  then RuntimeError ''Chunklist missing digital signature''
                  else ValueError ''Invalid chunklist: hash verification failed'')"
    by (simp add: hdr verify_signature_method_2 CHUNKLIST_HEADER_size_def CHUNK_size_def)
qed

lemma example_header_ok: 
  "length (example_header sm) = 36"
  "check_header (unpack_header (example_header 1)) = None"
  "check_header (unpack_header (example_header 2)) = None"
  "signature_method (unpack_header (example_header 2)) = 2"
  "chunk_count (unpack_header (example_header sm)) = 1"
  by (simp_all add: example_header_def check_header_def unpack_header_def field_def CNKL_def
      CHUNKLIST_HEADER_size_def CHUNK_size_def)

theorem signature_method_2_always_rejected_witness:
  "gen_result (verify_chunklist example_digest
      (\<lambda>p. if p = ''a.chunklist'' then Some (Regular (example_header 2 @ example_chunk @ replicate 32 72 @ [])) else None)
      ''a.chunklist'') = Some (RuntimeError ''Chunklist missing digital signature'')
   \<and> gen_result (verify_chunklist example_digest
      (\<lambda>p. if p = ''a.chunklist'' then Some (Regular (example_header 2 @ example_chunk @ replicate 32 0 @ [])) else None)
      ''a.chunklist'') = Some (ValueError ''Invalid chunklist: hash verification failed'')"
proof -
  have t: "take 36 (example_header 2 @ xs) = example_header 2" for xs
    by (simp add: example_header_ok)
  have d: "example_digest (example_header 2 @ example_chunk) = replicate 32 72"
    by (simp add: example_digest_def example_header_ok example_chunk_def)
  have lc: "length example_chunk = 36" by (simp add: example_chunk_def)
  have n: "replicate 32 (0::byte) \<noteq> replicate 32 72"
    by (simp add: replicate_eq_replicate)
  show ?thesis
    using signature_method_2_always_rejected
      [of "\<lambda>p. if p = ''a.chunklist'' then Some (Regular (example_header 2 @ example_chunk @ replicate 32 72 @ [])) else None"
          "''a.chunklist''" "example_header 2 @ example_chunk @ replicate 32 72 @ []"
          example_digest "example_header 2" example_chunk "replicate 32 72" "[]"]
      signature_method_2_always_rejected
      [of "\<lambda>p. if p = ''a.chunklist'' then Some (Regular (example_header 2 @ example_chunk @ replicate 32 0 @ [])) else None"
          "''a.chunklist''" "example_header 2 @ example_chunk @ replicate 32 0 @ []"
          example_digest "example_header 2" example_chunk "replicate 32 0" "[]"]
    by (simp add: t d n lc example_header_ok)
qed

lemma check_header_violation:
  assumes "magic h \<noteq> CNKL \<or> header_size h \<noteq> 36 \<or> file_version h \<noteq> 1 \<or>
           chunk_method h \<noteq> 1 \<or> (signature_method h \<noteq> 1 \<and> signature_method h \<noteq> 2) \<or>
           chunk_offset h \<noteq> 36 \<or> signature_offset h \<noteq> 36 + 36 * chunk_count h"
  shows "\<exists>e. check_header h = Some e \<and> e \<in> set header_errors"
  using assms
  by (auto simp add: check_header_def header_errors_def CHUNKLIST_HEADER_size_def CHUNK_size_def)

lemma trailing_bytes_raise:
  assumes "fs p = Some (Regular bs)" and "36 \<le> length bs"
    and "36 + 36 * chunk_count (unpack_header (take 36 bs)) +
           signature_length (signature_method (unpack_header (take 36 bs))) < length bs"
  shows "\<exists>e. gen_result (verify_chunklist H fs p) = Some e"
proof (cases "check_header (unpack_header (take CHUNKLIST_HEADER_size bs))")
  case (Some e)
  from verify_chunklist_bad_header [where fs=fs and p=p and H=H, OF assms(1) _ Some] assms(2)
  show ?thesis by (simp add: CHUNKLIST_HEADER_size_def)
next
  case None
  then have sm: "signature_method (unpack_header (take 36 bs)) = 1 \<or>
                 signature_method (unpack_header (take 36 bs)) = 2"
    by (simp add: check_header_def CHUNKLIST_HEADER_size_def split: if_splits)
  have len: "CHUNKLIST_HEADER_size \<le> length bs" using assms(2)
    by (simp add: CHUNKLIST_HEADER_size_def)
  from sm show ?thesis
  proof
    assume m1: "signature_method (unpack_header (take 36 bs)) = 1"
    from verify_chunklist_result [where fs=fs and p=p and H=H, OF assms(1) len None refl refl]
      assms(3) m1
    show ?thesis
      by (simp add: verify_signature_method_Suc_0 CHUNKLIST_HEADER_size_def CHUNK_size_def
          signature_length_def)
  next
    assume m2: "signature_method (unpack_header (take 36 bs)) = 2"
    from verify_chunklist_result [where fs=fs and p=p and H=H, OF assms(1) len None refl refl]
      assms(3) m2
    show ?thesis
      by (simp add: verify_signature_method_2 CHUNKLIST_HEADER_size_def CHUNK_size_def
          signature_length_def)
  qed
qed

lemma method_1_result:
  assumes "fs p = Some (Regular (hdr @ table @ sig @ extra))"
    and "length hdr = 36" and "check_header (unpack_header hdr) = None"
    and "signature_method (unpack_header hdr) = 1"
    and "length table = 36 * chunk_count (unpack_header hdr)"
    and "length sig = 256"
  shows "gen_result (verify_chunklist H fs p) =
         (if \<not> rsa_signature_ok sig (H (hdr @ table))
            then Some (ValueError ''Invalid chunklist: signature verification failed'')
          else if extra \<noteq> []
            then Some (ValueError ''Invalid chunklist: extra data after signature'')
          else None)"
proof -
  let ?bs = "hdr @ table @ sig @ extra"
  have hdr: "take CHUNKLIST_HEADER_size ?bs = hdr" using assms(2)
    by (simp add: CHUNKLIST_HEADER_size_def)
  have len: "CHUNKLIST_HEADER_size \<le> length ?bs" using assms(2)
    by (simp add: CHUNKLIST_HEADER_size_def)
  have ok: "check_header (unpack_header (take CHUNKLIST_HEADER_size ?bs)) = None"
    using assms(3) hdr by simp
  from verify_chunklist_result [where fs=fs and p=p and H=H, OF assms(1) len ok refl refl]
    assms(2,4,5,6)
  show ?thesis
    by (simp add: hdr verify_signature_method_Suc_0 CHUNKLIST_HEADER_size_def CHUNK_size_def)
qed

text \<open>
  C9. A manifest whose header declares zero chunks is rejected with the structural error
  "invalid chunk count" at the first step of the generator, before any chunk record is
  yielded, when magic, header size, version and the two methods are valid (whatever the
  two offsets are).
\<close>

theorem zero_chunk_count_rejected:
  assumes "fs p = Some (Regular bs)" and "36 \<le> length bs"
    and "magic (unpack_header (take 36 bs)) = CNKL"
    and "header_size (unpack_header (take 36 bs)) = 36"
    and "file_version (unpack_header (take 36 bs)) = 1"
    and "chunk_method (unpack_header (take 36 bs)) = 1"
    and "signature_method (unpack_header (take 36 bs)) = 1 \<or>
         signature_method (unpack_header (take 36 bs)) = 2"
    and "chunk_count (unpack_header (take 36 bs)) = 0"
  shows "verify_chunklist H fs p = Raise (ValueError ''Invalid chunklist: invalid chunk count'')
         \<and> gen_yields (verify_chunklist H fs p) = []"
proof -
  have "check_header (unpack_header (take CHUNKLIST_HEADER_size bs)) =
        Some (ValueError ''Invalid chunklist: invalid chunk count'')"
    using assms(3-8) by (auto simp add: check_header_def CHUNKLIST_HEADER_size_def)
  from verify_chunklist_bad_header [where fs=fs and p=p and H=H, OF assms(1) _ this] assms(2)
  show ?thesis by (simp add: CHUNKLIST_HEADER_size_def)
qed

lemma example_header_zero_fields:
  "length example_header_zero = 36"
  "magic (unpack_header example_header_zero) = CNKL"
  "header_size (unpack_header example_header_zero) = 36"
  "file_version (unpack_header example_header_zero) = 1"
  "chunk_method (unpack_header example_header_zero) = 1"
  "signature_method (unpack_header example_header_zero) = 1"
  "chunk_count (unpack_header example_header_zero) = 0"
  "chunk_offset (unpack_header example_header_zero) = 36"
  "signature_offset (unpack_header example_header_zero) = 36"
  by (simp_all add: example_header_zero_def unpack_header_def field_def CNKL_def)

theorem zero_chunk_count_rejected_witness:
  "verify_chunklist example_digest
     (\<lambda>p. if p = ''z.chunklist'' then Some (Regular (example_header_zero @ replicate 256 0)) else None)
     ''z.chunklist'' = Raise (ValueError ''Invalid chunklist: invalid chunk count'')
   \<and> gen_yields (verify_chunklist example_digest
     (\<lambda>p. if p = ''z.chunklist'' then Some (Regular (example_header_zero @ replicate 256 0)) else None)
     ''z.chunklist'') = []"
  using zero_chunk_count_rejected
    [of "\<lambda>p. if p = ''z.chunklist'' then Some (Regular (example_header_zero @ replicate 256 0)) else None"
        "''z.chunklist''" "example_header_zero @ replicate 256 0" example_digest]
  by (simp add: example_header_zero_fields)

text \<open>
  C4. A header that breaks any of the listed invariants (magic, header size, version,
  chunk method, signature method, chunk-table offset, signature offset) makes the first
  step of \<open>verify_chunklist\<close> raise one of the header's \<open>ValueError\<close>s, with no chunk
  yielded. A manifest with bytes after the signature region never finishes normally: run
  to its end the generator raises, and when nothing else is wrong with a method 1
  manifest the error is "extra data after signature".
\<close>

theorem structural_violations_raise:
  assumes "fs p = Some (Regular bs)" and "36 \<le> length bs"
    and "h = unpack_header (take 36 bs)"
  shows "(magic h \<noteq> CNKL \<or> header_size h \<noteq> 36 \<or> file_version h \<noteq> 1 \<or>
          chunk_method h \<noteq> 1 \<or> (signature_method h \<noteq> 1 \<and> signature_method h \<noteq> 2) \<or>
          chunk_offset h \<noteq> 36 \<or> signature_offset h \<noteq> 36 + 36 * chunk_count h \<longrightarrow>
          (\<exists>e. verify_chunklist H fs p = Raise e \<and> e \<in> set header_errors))
       \<and> (36 + 36 * chunk_count h + signature_length (signature_method h) < length bs \<longrightarrow>
          (\<exists>e. gen_result (verify_chunklist H fs p) = Some e))
       \<and> (bs = hdr @ table @ sig @ extra \<and> length hdr = 36 \<and> check_header h = None \<and>
          signature_method h = 1 \<and> length table = 36 * chunk_count h \<and> length sig = 256 \<and>
          extra \<noteq> [] \<longrightarrow>
          gen_result (verify_chunklist H fs p) =
            Some (ValueError (if rsa_signature_ok sig (H (hdr @ table))
                    then ''Invalid chunklist: extra data after signature''
                    else ''Invalid chunklist: signature verification failed'')))"
proof (intro conjI impI)
  assume v: "magic h \<noteq> CNKL \<or> header_size h \<noteq> 36 \<or> file_version h \<noteq> 1 \<or>
          chunk_method h \<noteq> 1 \<or> (signature_method h \<noteq> 1 \<and> signature_method h \<noteq> 2) \<or>
          chunk_offset h \<noteq> 36 \<or> signature_offset h \<noteq> 36 + 36 * chunk_count h"
  from check_header_violation [OF v] obtain e
    where e: "check_header h = Some e" "e \<in> set header_errors" by blast
  have "check_header (unpack_header (take CHUNKLIST_HEADER_size bs)) = Some e"
    using e(1) assms(3) by (simp add: CHUNKLIST_HEADER_size_def)
  from verify_chunklist_bad_header [where fs=fs and p=p and H=H, OF assms(1) _ this] assms(2)
  have "verify_chunklist H fs p = Raise e" by (simp add: CHUNKLIST_HEADER_size_def)
  with e(2) show "\<exists>e. verify_chunklist H fs p = Raise e \<and> e \<in> set header_errors" by blast
next
  assume "36 + 36 * chunk_count h + signature_length (signature_method h) < length bs"
  then show "\<exists>e. gen_result (verify_chunklist H fs p) = Some e"
    using trailing_bytes_raise [where fs=fs and p=p and H=H, OF assms(1,2)] assms(3) by simp
next
  assume a: "bs = hdr @ table @ sig @ extra \<and> length hdr = 36 \<and> check_header h = None \<and>
          signature_method h = 1 \<and> length table = 36 * chunk_count h \<and> length sig = 256 \<and>
          extra \<noteq> []"
  then have h: "h = unpack_header hdr" using assms(3) by simp
  have fsp: "fs p = Some (Regular (hdr @ table @ sig @ extra))" using assms(1) a by simp
  from method_1_result [where fs=fs and p=p and H=H, OF fsp] a h
  show "gen_result (verify_chunklist H fs p) =
            Some (ValueError (if rsa_signature_ok sig (H (hdr @ table))
                    then ''Invalid chunklist: extra data after signature''
                    else ''Invalid chunklist: signature verification failed''))"
    by simp
qed


lemma example_header_bad_magic_fields:
  "length example_header_bad_magic = 36"
  "magic (unpack_header example_header_bad_magic) \<noteq> CNKL"
  by (simp_all add: example_header_bad_magic_def example_header_def unpack_header_def field_def CNKL_def)

lemma example_chunk_length: "length example_chunk = 36"
  by (simp add: example_chunk_def)

theorem structural_violations_raise_witness:
  "(\<exists>e. verify_chunklist example_digest
       (\<lambda>p. if p = ''b.chunklist'' then Some (Regular (example_header_bad_magic @ example_chunk)) else None)
       ''b.chunklist'' = Raise e \<and> e \<in> set header_errors)
   \<and> (\<exists>e. gen_result (verify_chunklist example_digest
       (\<lambda>p. if p = ''c.chunklist''
            then Some (Regular (example_header 1 @ example_chunk @ replicate 256 0 @ [7])) else None)
       ''c.chunklist'') = Some e)
   \<and> gen_result (verify_chunklist example_digest
       (\<lambda>p. if p = ''c.chunklist''
            then Some (Regular (example_header 1 @ example_chunk @ replicate 256 0 @ [7])) else None)
       ''c.chunklist'') = Some (ValueError ''Invalid chunklist: signature verification failed'')"
proof -
  have t: "take 36 (example_header 1 @ xs) = example_header 1" for xs
    by (simp add: example_header_ok)
  have sm: "signature_method (unpack_header (example_header 1)) = 1"
    by (simp add: example_header_def unpack_header_def field_def)
  have a: "\<exists>e. verify_chunklist example_digest
       (\<lambda>p. if p = ''b.chunklist'' then Some (Regular (example_header_bad_magic @ example_chunk)) else None)
       ''b.chunklist'' = Raise e \<and> e \<in> set header_errors"
    using structural_violations_raise
      [of "\<lambda>p. if p = ''b.chunklist'' then Some (Regular (example_header_bad_magic @ example_chunk)) else None"
          "''b.chunklist''" "example_header_bad_magic @ example_chunk"
          "unpack_header example_header_bad_magic" example_digest]
    by (simp add: example_header_bad_magic_fields)
  have bc: "(\<exists>e. gen_result (verify_chunklist example_digest
       (\<lambda>p. if p = ''c.chunklist''
            then Some (Regular (example_header 1 @ example_chunk @ replicate 256 0 @ [7])) else None)
       ''c.chunklist'') = Some e)
   \<and> gen_result (verify_chunklist example_digest
       (\<lambda>p. if p = ''c.chunklist''
            then Some (Regular (example_header 1 @ example_chunk @ replicate 256 0 @ [7])) else None)
       ''c.chunklist'') = Some (ValueError ''Invalid chunklist: signature verification failed'')"
    using structural_violations_raise
      [of "\<lambda>p. if p = ''c.chunklist''
            then Some (Regular (example_header 1 @ example_chunk @ replicate 256 0 @ [7])) else None"
          "''c.chunklist''" "example_header 1 @ example_chunk @ replicate 256 0 @ [7]"
          "unpack_header (example_header 1)" example_digest
          "example_header 1" example_chunk "replicate 256 0" "[7]"]
    by (simp add: t sm example_header_ok example_chunk_length signature_length_def
        zero_signature_fails)
  from a bc show ?thesis by blast
qed

subsection \<open>The verifier's treatment of missing inputs\<close>

lemma for_chunks_raising_generator:
  "gen_result g \<noteq> None \<Longrightarrow> for_chunks H g f \<noteq> Exhausted f'"
  by (induction H g f rule: for_chunks.induct) (simp_all split: sum.splits)

lemma try_body_raising_generator:
  assumes "gen_result (verify_chunklist H fs manifest_path) \<noteq> None"
  shows "try_body H fs target_path manifest_path \<noteq> Inr True"
  using for_chunks_raising_generator [OF assms, of H]
    for_chunks_not_Returned_True [of H "verify_chunklist H fs manifest_path"]
  by (auto simp add: try_body_def split: sum.splits loop_exit.splits)

text \<open>
  C10. A missing target file makes \<open>verify_file_against_chunklist\<close> raise
  \<open>FileNotFoundError\<close>; when the target exists, every error the manifest gives rise to
  (a missing or unreadable chunklist, a structural error, a failed signature) is caught
  and the function returns \<open>False\<close>.
\<close>

theorem missing_inputs_asymmetry:
  "(fs target_path = None \<longrightarrow>
      verify_file_against_chunklist H fs target_path manifest_path =
        Inl (FileNotFoundError (''File not found: '' @ target_path)))
   \<and> (fs target_path \<noteq> None \<and> gen_result (verify_chunklist H fs manifest_path) \<noteq> None \<longrightarrow>
      verify_file_against_chunklist H fs target_path manifest_path = Inr False)
   \<and> (fs manifest_path = None \<longrightarrow>
      verify_chunklist H fs manifest_path =
        Raise (FileNotFoundError (''Chunklist file not found: '' @ manifest_path)))"
proof (intro conjI impI)
  assume "fs target_path = None"
  then show "verify_file_against_chunklist H fs target_path manifest_path =
        Inl (FileNotFoundError (''File not found: '' @ target_path))"
    by (simp add: verify_file_against_chunklist_def path_exists_def)
next
  assume a: "fs target_path \<noteq> None \<and> gen_result (verify_chunklist H fs manifest_path) \<noteq> None"
  then have "try_body H fs target_path manifest_path \<noteq> Inr True"
    using try_body_raising_generator by blast
  with a show "verify_file_against_chunklist H fs target_path manifest_path = Inr False"
    by (auto simp add: verify_file_against_chunklist_def path_exists_def split: sum.splits)
next
  assume "fs manifest_path = None"
  then show "verify_chunklist H fs manifest_path =
        Raise (FileNotFoundError (''Chunklist file not found: '' @ manifest_path))"
    by (simp add: verify_chunklist_def path_exists_def)
qed

theorem missing_inputs_asymmetry_witness:
  "verify_file_against_chunklist example_digest (\<lambda>p. None) ''a.dmg'' ''a.chunklist'' =
     Inl (FileNotFoundError ''File not found: a.dmg'')
   \<and> verify_file_against_chunklist example_digest
       (\<lambda>p. if p = ''a.dmg'' then Some (Regular [1, 2, 3]) else None) ''a.dmg'' ''a.chunklist'' =
     Inr False
   \<and> verify_chunklist example_digest
       (\<lambda>p. if p = ''a.dmg'' then Some (Regular [1, 2, 3]) else None) ''a.chunklist'' =
     Raise (FileNotFoundError ''Chunklist file not found: a.chunklist'')"
  using missing_inputs_asymmetry [of "\<lambda>p. None" "''a.dmg''" example_digest "''a.chunklist''"]
    missing_inputs_asymmetry
      [of "\<lambda>p. if p = ''a.dmg'' then Some (Regular [1, 2, 3]) else None" "''a.dmg''"
          example_digest "''a.chunklist''"]
  by simp


subsection \<open>The signature check of method 1\<close>

text \<open>
  C2, as stated, has the 256 signature bytes read as a big-endian integer. The code
  reads them with \<open>int.from_bytes(data, "little")\<close>: for the bytes \<open>01 00 .. 00\<close> the
  integer it raises to the public exponent is 1, where the big-endian reading is
  \<open>256 ^ 255\<close>.
\<close>

theorem signature_bytes_not_big_endian:
  "signature_of (1 # replicate 255 0) = 1
   \<and> spec_signature_of (1 # replicate 255 0) = 256 ^ 255
   \<and> signature_of (1 # replicate 255 0) \<noteq> spec_signature_of (1 # replicate 255 0)"
proof -
  have l: "signature_of (1 # replicate 255 0) = 1"
    by (simp add: signature_of_def from_bytes_little_zeros)
  have b: "spec_signature_of (1 # replicate 255 0) = 256 ^ 255"
    by (simp add: spec_signature_of_def from_bytes_big_Cons from_bytes_big_zeros)
  have "(1::nat) \<noteq> 256 ^ 255" by simp
  with l b show ?thesis by simp
qed

text \<open>
  C2, amended. For a manifest with a valid header of signature method 1, a complete
  chunk table and 256 signature bytes, the signature bytes are read as a little-endian
  integer, raised to the exponent 65537 modulo the fixed public modulus, and compared
  with the big-endian value of the PKCS#1 v1.5 encoding (padding prefix, SHA-256 OID,
  digest bytes) of the running digest over header and chunk records; a mismatch raises
  "signature verification failed", and on a match the generator goes on to the check
  for trailing bytes.
\<close>

theorem rsa_signature_check:
  assumes "fs p = Some (Regular (hdr @ table @ sig @ extra))"
    and "length hdr = 36" and "check_header (unpack_header hdr) = None"
    and "signature_method (unpack_header hdr) = 1"
    and "length table = 36 * chunk_count (unpack_header hdr)"
    and "length sig = 256"
    and "length (H (hdr @ table)) = 32"
  shows "gen_result (verify_chunklist H fs p) =
         (if from_bytes_little sig ^ 65537 mod APPLE_EFI_ROM_PUBLIC_KEY_1 \<noteq>
               from_bytes_big (pkcs1_v15_encoding (H (hdr @ table)))
            then Some (ValueError ''Invalid chunklist: signature verification failed'')
          else if extra \<noteq> []
            then Some (ValueError ''Invalid chunklist: extra data after signature'')
          else None)"
proof -
  have "rsa_signature_ok sig (H (hdr @ table)) =
        (from_bytes_little sig ^ 65537 mod APPLE_EFI_ROM_PUBLIC_KEY_1 =
         from_bytes_big (pkcs1_v15_encoding (H (hdr @ table))))"
    using plaintext_is_pkcs1_encoding [OF assms(7)]
    by (simp add: rsa_signature_ok_def pow_mod_def signature_of_def)
  with method_1_result [where fs=fs and p=p and H=H, OF assms(1-6)]
  show ?thesis by simp
qed

theorem rsa_signature_check_witness:
  "gen_result (verify_chunklist example_digest
     (\<lambda>p. if p = ''c.chunklist''
          then Some (Regular (example_header 1 @ example_chunk @ replicate 256 0 @ [])) else None)
     ''c.chunklist'') = Some (ValueError ''Invalid chunklist: signature verification failed'')"
proof -
  have sm: "signature_method (unpack_header (example_header 1)) = 1"
    by (simp add: example_header_def unpack_header_def field_def)
  have ne: "from_bytes_big (pkcs1_v15_encoding (example_digest (example_header 1 @ example_chunk))) \<noteq> 0"
    using plaintext_is_pkcs1_encoding [of "example_digest (example_header 1 @ example_chunk)"]
      plaintext_nonzero [of "example_digest (example_header 1 @ example_chunk)"]
    by (simp add: example_digest_def)
  show ?thesis
    using rsa_signature_check
      [of "\<lambda>p. if p = ''c.chunklist''
          then Some (Regular (example_header 1 @ example_chunk @ replicate 256 0 @ [])) else None"
        "''c.chunklist''" "example_header 1" example_chunk "replicate 256 0" "[]" example_digest]
      ne
    by (simp add: sm example_header_ok example_chunk_length from_bytes_little_zeros example_digest_def)
qed


section \<open>Properties of the downloader\<close>

lemmas download_defs =
  skip_existing_def attempt_once_def handle_exception_def try_block_def get_total_size_def
  start_download_def download_body_def verify_size_def send_def cancelled_def
  sleep_and_double_def remove_file_def open_for_writing_def f_write_def resuming_def
  from_scratch_def restart_state_def fetch_def

lemmas example_defs =
  example_args_def example_world_def ok_def new_Downloader_def view_def

text \<open>
  C5. After a size mismatch the next attempt should start from byte 0. Called to resume
  at offset 2 with 5 bytes expected, on a server whose first response is one byte short,
  the code removes the file and then sends \<open>Range: bytes=2-\<close> again, on this and on
  every later attempt; the tail it receives is all the destination file ends with.
\<close>

theorem size_mismatch_retry_keeps_offset:
  "view (attempt_once short_then_tail (example_args 2 5) 0
           (new_Downloader, example_world (Some [1, 2])))
     = (ONext, 6, [GET (Some 2)], None, [3])
   \<and> view (stream_to_file short_then_tail (example_args 2 5)
           (new_Downloader, example_world (Some [1, 2])))
     = (None, 3,
        [GET (Some 2), GET (Some 2), GET (Some 2), GET (Some 2), GET (Some 2), GET (Some 2)],
        Some [3, 4, 5], [3, 6, 12, 24, 48])"
  by (simp add: download_defs example_defs short_then_tail_def Let_def)

text \<open>
  C7. A successful operation should leave the retry delay at its seed. With the seed 3
  and a first response whose body breaks off while it is read, \<open>stream_to_file\<close>,
  \<open>get_bytes\<close> and \<open>get_string\<close> all succeed on their second attempt and return
  their result with the delay left at 6.
\<close>

theorem success_leaves_delay_doubled:
  "retry_delay new_Downloader = 3
   \<and> view (stream_to_file (drop_then_serve [1, 2] [[1, 2, 3]]) (example_args 0 3)
           (new_Downloader, example_world None))
     = (Some ''a.dmg'', 6, [GET None, GET None], Some [1, 2, 3], [3])
   \<and> view (get_bytes (drop_then_serve [1, 2] [[1, 2, 3]]) (new_Downloader, example_world None))
     = (Inr (Some [1, 2, 3]), 6, [GET None, GET None], None, [3])
   \<and> view (get_string ascii (drop_then_serve [1, 2] [[1, 2, 3]])
           (new_Downloader, example_world None))
     = (Inr (Some [char_of (1::nat), char_of (2::nat), char_of (3::nat)]), 6,
        [GET None, GET None], None, [3])"
  by (simp add: download_defs example_defs drop_then_serve_def get_bytes_def get_string_def
      ascii_def Let_def)



subsection \<open>What one attempt sends\<close>

lemma cancelled_requests: "requests (snd (cancelled a w)) = requests w"
  by (simp add: cancelled_def split: option.splits)

lemma write_chunks_requests:
  "requests (snd (snd (write_chunks a chunks s))) = requests (snd s)"
proof (induction chunks arbitrary: s)
  case Nil
  then show ?case by simp
next
  case (Cons chunk rest)
  obtain d w where s: "s = (d, w)" by (cases s)
  obtain c w1 where c: "cancelled a w = (c, w1)" by (cases "cancelled a w")
  have r: "requests w1 = requests w" using cancelled_requests [of a w] unfolding c by simp
  show ?case
    using Cons.IH r by (simp add: s c f_write_def Let_def)
qed

lemma write_chunks_max_retries:
  "max_retries (fst (snd (write_chunks a chunks s))) = max_retries (fst s)"
proof (induction chunks arbitrary: s)
  case Nil
  then show ?case by simp
next
  case (Cons chunk rest)
  obtain d w where s: "s = (d, w)" by (cases s)
  obtain c w1 where c: "cancelled a w = (c, w1)" by (cases "cancelled a w")
  show ?case
    using Cons.IH by (simp add: s c Let_def)
qed

lemma verify_size_requests:
  "requests (snd (snd (verify_size a attempt s))) = requests (snd s)"
  by (simp add: verify_size_def sleep_and_double_def remove_file_def Let_def
      split: prod.splits option.splits)

lemma verify_size_max_retries:
  "max_retries (fst (snd (verify_size a attempt s))) = max_retries (fst s)"
  by (simp add: verify_size_def sleep_and_double_def Let_def split: prod.splits option.splits)

lemma download_body_requests:
  "requests (snd (snd (download_body a attempt req s))) = requests (snd s)"
proof -
  obtain d w where s: "s = (d, w)" by (cases s)
  obtain c s1 where wc:
    "write_chunks a (body req) (d, open_for_writing (resuming a) (file_path a) w) = (c, s1)"
    by (cases "write_chunks a (body req) (d, open_for_writing (resuming a) (file_path a) w)")
  have "requests (snd s1) = requests w"
    using write_chunks_requests [of a "body req" "(d, open_for_writing (resuming a) (file_path a) w)"]
    unfolding wc by (simp add: open_for_writing_def)
  then show ?thesis
    by (simp add: download_body_def s wc verify_size_requests split: option.splits)
qed

lemma download_body_max_retries:
  "max_retries (fst (snd (download_body a attempt req s))) = max_retries (fst s)"
proof -
  obtain d w where s: "s = (d, w)" by (cases s)
  obtain c s1 where wc:
    "write_chunks a (body req) (d, open_for_writing (resuming a) (file_path a) w) = (c, s1)"
    by (cases "write_chunks a (body req) (d, open_for_writing (resuming a) (file_path a) w)")
  have "max_retries (fst s1) = max_retries d"
    using write_chunks_max_retries [of a "body req" "(d, open_for_writing (resuming a) (file_path a) w)"]
    unfolding wc by simp
  then show ?thesis
    by (simp add: download_body_def s wc verify_size_max_retries split: option.splits)
qed

lemma start_download_requests:
  "\<exists>rs. requests (snd (snd (start_download net a attempt s))) = requests (snd s) @ rs
        \<and> set rs \<subseteq> {GET (resume_header (fst s))}"
proof -
  obtain d w where s: "s = (d, w)" by (cases s)
  obtain c w1 where c: "cancelled a w = (c, w1)" by (cases "cancelled a w")
  have r: "requests w1 = requests w" using cancelled_requests [of a w] unfolding c by simp
  show ?thesis
  proof (cases c)
    case True
    then show ?thesis by (simp add: start_download_def s c r)
  next
    case False
    show ?thesis
    proof (cases "net (requests w1) (GET (resume_header d))")
      case (Inl e)
      then show ?thesis using False by (simp add: start_download_def s c r send_def)
    next
      case (Inr req)
      then show ?thesis using False
        by (simp add: start_download_def s c r send_def Let_def download_body_requests)
    qed
  qed
qed

lemma start_download_max_retries:
  "max_retries (fst (snd (start_download net a attempt s))) = max_retries (fst s)"
  by (simp add: start_download_def send_def Let_def download_body_max_retries
      split: prod.splits sum.splits content_length.splits)

lemma get_total_size_requests:
  "\<exists>rs. requests (snd (snd (get_total_size net a s))) = requests (snd s) @ rs
        \<and> set rs \<subseteq> (if resuming a then {HEAD} else {})"
proof -
  obtain d w where s: "s = (d, w)" by (cases s)
  obtain c w1 where c: "cancelled a w = (c, w1)" by (cases "cancelled a w")
  have r: "requests w1 = requests w" using cancelled_requests [of a w] unfolding c by simp
  show ?thesis
    by (auto simp add: get_total_size_def s c r send_def resuming_def
        split: sum.splits content_length.splits)
qed

lemma get_total_size_fields:
  "resume_header (fst (snd (get_total_size net a s))) = resume_header (fst s)"
  "max_retries (fst (snd (get_total_size net a s))) = max_retries (fst s)"
  by (simp_all add: get_total_size_def send_def
      split: prod.splits sum.splits content_length.splits)

lemma try_block_requests:
  "\<exists>rs. requests (snd (snd (try_block net a attempt s))) = requests (snd s) @ rs
        \<and> set rs \<subseteq> (if resuming a then {HEAD, GET (Some (resume_bytes a))} else {GET None})"
proof -
  obtain d w where s: "s = (d, w)" by (cases s)
  obtain c w1 where c: "cancelled a w = (c, w1)" by (cases "cancelled a w")
  have r: "requests w1 = requests w" using cancelled_requests [of a w] unfolding c by simp
  define d2 where "d2 = d\<lparr>bytes_downloaded := resume_bytes a, total_attr := total_bytes a,
    resume_header := (if allow_resume a \<and> resume_bytes a > 0 then Some (resume_bytes a) else None)\<rparr>"
  obtain x s3 where g: "get_total_size net a (d2, w1) = (x, s3)"
    by (cases "get_total_size net a (d2, w1)")
  obtain hs where hs: "requests (snd s3) = requests w @ hs"
    "set hs \<subseteq> (if resuming a then {HEAD} else {})"
    using get_total_size_requests [of net a "(d2, w1)"] unfolding g by (auto simp add: r)
  have rh: "resume_header (fst s3) = (if resuming a then Some (resume_bytes a) else None)"
    using get_total_size_fields(1) [of net a "(d2, w1)"] unfolding g
    by (simp add: d2_def resuming_def)
  obtain gs where gs: "requests (snd (snd (start_download net a attempt s3))) = requests (snd s3) @ gs"
    "set gs \<subseteq> {GET (resume_header (fst s3))}"
    using start_download_requests [of net a attempt s3] by auto
  show ?thesis
  proof (cases c)
    case True
    then show ?thesis by (simp add: try_block_def s c r Let_def)
  next
    case False
    have tb: "try_block net a attempt s =
          (case x of Inl e \<Rightarrow> (Inl e, s3) | Inr (Some fl) \<Rightarrow> (Inr fl, s3)
           | Inr None \<Rightarrow> start_download net a attempt s3)"
      using False
      by (simp add: try_block_def s c g d2_def [symmetric] Let_def split: sum.splits option.splits)
    show ?thesis
    proof (cases "x = Inr None")
      case True
      then have "requests (snd (snd (try_block net a attempt s))) = requests (snd s) @ (hs @ gs)"
        using tb hs(1) gs(1) by (simp add: s)
      moreover have "set (hs @ gs) \<subseteq> (if resuming a then {HEAD, GET (Some (resume_bytes a))} else {GET None})"
        using hs(2) gs(2) rh by (auto split: if_splits)
      ultimately show ?thesis by blast
    next
      case False
      then have "requests (snd (snd (try_block net a attempt s))) = requests (snd s) @ hs"
        using tb hs(1) by (auto simp add: s split: sum.splits option.splits)
      moreover have "set hs \<subseteq> (if resuming a then {HEAD, GET (Some (resume_bytes a))} else {GET None})"
        using hs(2) by (auto split: if_splits)
      ultimately show ?thesis by blast
    qed
  qed
qed

lemma try_block_max_retries:
  "max_retries (fst (snd (try_block net a attempt s))) = max_retries (fst s)"
proof -
  obtain d w where s: "s = (d, w)" by (cases s)
  obtain c w1 where c: "cancelled a w = (c, w1)" by (cases "cancelled a w")
  define d2 where "d2 = d\<lparr>bytes_downloaded := resume_bytes a, total_attr := total_bytes a,
    resume_header := (if allow_resume a \<and> resume_bytes a > 0 then Some (resume_bytes a) else None)\<rparr>"
  obtain x s3 where g: "get_total_size net a (d2, w1) = (x, s3)"
    by (cases "get_total_size net a (d2, w1)")
  have m: "max_retries (fst s3) = max_retries d"
    using get_total_size_fields(2) [of net a "(d2, w1)"] unfolding g by (simp add: d2_def)
  show ?thesis
    using m by (simp add: try_block_def s c g d2_def [symmetric] Let_def start_download_max_retries
        split: sum.splits option.splits)
qed


subsection \<open>A retry of a call that does not resume\<close>













lemma no_second_restart: "fst (handle_exception (from_scratch a) attempt e s) \<noteq> ORestart"
  by (cases s) (simp add: handle_exception_def from_scratch_def split: exn.splits)

lemma remove_file_absent: "disk w path = None \<Longrightarrow> remove_file path w = w"
proof -
  assume "disk w path = None"
  then have "(disk w)(path := None) = disk w" by (simp add: fun_upd_idem)
  then show ?thesis by (simp add: remove_file_def)
qed

text \<open>
  C8. When an attempt made while resuming ends in HTTP 416, the destination file is
  removed and the function calls itself with offset 0, unknown total and resume
  disabled. That call is not skipped (the file is gone), it runs its own attempts, each
  of which sends a \<open>GET\<close> without range and opens the file in write mode, and none of
  its attempts can take the 416 branch again: the transfer is restarted once.
\<close>

theorem range_not_satisfiable_fallback:
  assumes "allow_resume a" and "resume_bytes a > 0" and "attempt < n"
    and "fst (try_block net a attempt s) = Inl (HTTPError 416)"
  shows "attempt_loop net a original attempt n s =
           stream_to_file net (from_scratch a) (restart_state a (snd (try_block net a attempt s)))
       \<and> stream_to_file net (from_scratch a) (restart_state a (snd (try_block net a attempt s))) =
           attempt_loop net (from_scratch a)
             (retry_delay (fst (snd (try_block net a attempt s)))) 0
             (max_retries (fst s) + 1) (restart_state a (snd (try_block net a attempt s)))
       \<and> disk (snd (restart_state a (snd (try_block net a attempt s)))) (file_path a) = None
       \<and> file_path (from_scratch a) = file_path a
       \<and> resume_bytes (from_scratch a) = 0 \<and> total_bytes (from_scratch a) = - 1
       \<and> \<not> allow_resume (from_scratch a) \<and> \<not> resuming (from_scratch a)
       \<and> (\<forall>k e s'. fst (handle_exception (from_scratch a) k e s') \<noteq> ORestart)
       \<and> (\<forall>k s'. \<exists>rs. requests (snd (snd (try_block net (from_scratch a) k s')))
                          = requests (snd s') @ rs \<and> set rs \<subseteq> {GET None})"
proof (intro conjI allI)
  let ?s1 = "snd (try_block net a attempt s)"
  have "attempt_once net a attempt s = handle_exception a attempt (HTTPError 416) ?s1"
    using assms(4) by (cases "try_block net a attempt s") (simp add: attempt_once_def)
  also have "\<dots> = (ORestart, restart_state a ?s1)"
    using assms(1,2)
    by (cases ?s1) (auto simp add: handle_exception_def restart_state_def remove_file_absent)
  finally show "attempt_loop net a original attempt n s =
           stream_to_file net (from_scratch a) (restart_state a ?s1)"
    using assms(3) by simp
next
  have gone: "disk (snd (restart_state a (snd (try_block net a attempt s)))) (file_path a) = None"
    by (simp add: restart_state_def remove_file_def)
  show "disk (snd (restart_state a (snd (try_block net a attempt s)))) (file_path a) = None"
    by (rule gone)
  have "\<not> skip_existing (from_scratch a) (snd (restart_state a (snd (try_block net a attempt s))))"
    using gone by (simp add: skip_existing_def from_scratch_def)
  then show "stream_to_file net (from_scratch a) (restart_state a (snd (try_block net a attempt s))) =
           attempt_loop net (from_scratch a)
             (retry_delay (fst (snd (try_block net a attempt s)))) 0
             (max_retries (fst s) + 1) (restart_state a (snd (try_block net a attempt s)))"
    by (simp add: restart_state_def try_block_max_retries)
next
  show "file_path (from_scratch a) = file_path a" by (simp add: from_scratch_def)
  show "resume_bytes (from_scratch a) = 0" by (simp add: from_scratch_def)
  show "total_bytes (from_scratch a) = - 1" by (simp add: from_scratch_def)
  show "\<not> allow_resume (from_scratch a)" by (simp add: from_scratch_def)
  show "\<not> resuming (from_scratch a)" by (simp add: from_scratch_def resuming_def)
next
  fix k e s'
  show "fst (handle_exception (from_scratch a) k e s') \<noteq> ORestart"
    by (rule no_second_restart)
next
  fix k s'
  show "\<exists>rs. requests (snd (snd (try_block net (from_scratch a) k s')))
                          = requests (snd s') @ rs \<and> set rs \<subseteq> {GET None}"
    using try_block_requests [of net "from_scratch a" k s']
    by (simp add: from_scratch_def resuming_def)
qed

theorem range_not_satisfiable_fallback_witness:
  "fst (try_block refuse_range (example_args 2 (- 1)) 0
          (new_Downloader, example_world (Some [9, 9]))) = Inl (HTTPError 416)
   \<and> attempt_loop refuse_range (example_args 2 (- 1)) 3 0 6
        (new_Downloader, example_world (Some [9, 9])) =
      stream_to_file refuse_range (from_scratch (example_args 2 (- 1)))
        (restart_state (example_args 2 (- 1))
           (snd (try_block refuse_range (example_args 2 (- 1)) 0
              (new_Downloader, example_world (Some [9, 9])))))
   \<and> view (stream_to_file refuse_range (example_args 2 (- 1))
        (new_Downloader, example_world (Some [9, 9])))
      = (Some ''a.dmg'', 3, [HEAD, GET (Some 2), GET None], Some [1, 2, 3], [])"
proof -
  have f: "fst (try_block refuse_range (example_args 2 (- 1)) 0
          (new_Downloader, example_world (Some [9, 9]))) = Inl (HTTPError 416)"
    by (simp add: download_defs example_defs refuse_range_def Let_def)
  have a: "allow_resume (example_args 2 (- 1))" "resume_bytes (example_args 2 (- 1)) > 0"
    by (simp_all add: example_args_def)
  have n: "(0::nat) < 6" by simp
  have v: "view (stream_to_file refuse_range (example_args 2 (- 1))
        (new_Downloader, example_world (Some [9, 9])))
      = (Some ''a.dmg'', 3, [HEAD, GET (Some 2), GET None], Some [1, 2, 3], [])"
    by (simp add: download_defs example_defs refuse_range_def Let_def)
  from range_not_satisfiable_fallback [OF a n f, where original = 3]
  have "attempt_loop refuse_range (example_args 2 (- 1)) 3 0 6
        (new_Downloader, example_world (Some [9, 9])) =
      stream_to_file refuse_range (from_scratch (example_args 2 (- 1)))
        (restart_state (example_args 2 (- 1))
           (snd (try_block refuse_range (example_args 2 (- 1)) 0
              (new_Downloader, example_world (Some [9, 9])))))"
    by (rule conjunct1)
  with f v show ?thesis by blast
qed

end
